theory Spec2Isabelle
  imports Main
begin

section \<open>SearchBar.tsx: the search bar components as state machines\<close>

text \<open>
  The file under study defines three React components: \<open>SearchBarBase\<close> (a text input that
  keeps a local copy of its \<open>value\<close> prop and reports it through \<open>onChange\<close> after a quiet
  period), \<open>SearchBarInput\<close> (the same input, fed from and writing to the shared search
  context) and \<open>SearchBarAutocomplete\<close> (which renders a \<open>SearchBarInput\<close> inside a
  selection list).

  A component instance is modelled by a record of what React keeps for it between two events
  (the props of the last render, the \<open>useState\<close> cell, the pending timeout) and one function
  per thing that can happen to it: the mount, a render with new props, each event handler,
  and the passing of time. Every function runs the handler together with the renders and
  effects React performs before the next event, and returns the new state with the calls
  made to the outside (the caller's callbacks, the setter of the shared context), in order.

  A JavaScript value that is a string or \<open>undefined\<close> is a \<open>string option\<close>, with \<open>None\<close> for
  \<open>undefined\<close>. Time is counted in milliseconds.
\<close>

subsection \<open>Props, calls, state\<close>

text \<open>
  An object of attributes for the \<open><input>\<close> element, restricted to its \<open>value\<close>: \<open>None\<close>
  when the object has no \<open>value\<close>.
\<close>

type_synonym attrs = "string option"

text \<open>
  \<open>SearchBarBaseProps\<close> (lines 65-71), restricted to the options that influence the
  behaviour: an optional callback is \<open>True\<close> when the caller supplied it, an optional option
  is \<open>None\<close> when it is absent. \<open>onChange\<close> is required there, so it has no field.
  The \<open>value\<close> prop is of type \<open>unknown\<close> in the source; it is a string or absent here.
  \<open>inputProps_attrs\<close> is the option \<open>inputProps\<close> of \<open>InputBaseProps\<close> (line 88), the
  attributes the caller wants on the \<open><input>\<close> element.
\<close>

record base_props =
  debounceTime :: "nat option"
  clearButton :: "bool option"
  onClear :: bool
  onSubmit :: bool
  onKeyDown :: bool
  inputProps_attrs :: "attrs option"
  value_prop :: "string option"

text \<open>The calls a component makes to its environment.\<close>

datatype call =
  OnChange "string option"
| OnKeyDown string
| OnSubmit
| OnClear
| SetTerm "string option"

text \<open>
  The state of a mounted \<open>SearchBarBase\<close>: the props of its last render (the closures of
  the handlers and the dependency lists of the effects refer to them), the \<open>value\<close> cell of
  \<open>useState\<close> (line 93), and the time left on the pending timeout, if one is pending.
\<close>

record base_state =
  props :: base_props
  local_value :: "string option"
  timer :: "nat option"

text \<open>What can happen to the rendered input between two renders.\<close>

datatype action =
  Edit string
| KeyDown string
| Clear
| Advance nat

subsection \<open>The debounce timer\<close>

text \<open>
  Modelled from the spec: the hook \<open>useDebounce\<close> is imported from \<open>react-use\<close> and is not
  part of the source. Section 5: "the debounce delay, implemented as a cancellable timer: each
  new edit cancels any pending timer and arms a new one"; section 9: "arming replaces any
  existing handle (cancel-then-schedule), guaranteeing at-most-one pending emission".
  \<open>reset d\<close> forgets the pending timeout, whatever it is, and schedules one that is due in
  \<open>d\<close> milliseconds.
\<close>

definition reset :: "nat \<Rightarrow> nat option \<Rightarrow> nat option" where
  "reset d pending = Some d"

text \<open>
  Modelled from the spec: the same hook, when time passes. Section 3: the term is "propagated
  to the outward callback only after the debounce window elapses"; section 4.3: "armed, fired,
  idle". \<open>elapse n pending\<close> lets \<open>n\<close> milliseconds pass: a timeout that is due within them
  fires (\<open>True\<close>) and nothing is pending afterwards, another one has \<open>n\<close> milliseconds less
  to go.
\<close>

definition elapse :: "nat \<Rightarrow> nat option \<Rightarrow> nat option \<times> bool" where
  "elapse n pending =
     (case pending of
        None \<Rightarrow> (None, False)
      | Some r \<Rightarrow> if r \<le> n then (None, True) else (Some (r - n), False))"

subsection \<open>SearchBarBase (lines 80-160)\<close>

text \<open>\<open>debounceTime = 200\<close> and \<open>clearButton = true\<close>: the defaults of lines 84 and 85.\<close>

definition delay :: "'a base_props_scheme \<Rightarrow> nat" where
  "delay p = (case debounceTime p of None \<Rightarrow> 200 | Some d \<Rightarrow> d)"

definition clear_shown :: "'a base_props_scheme \<Rightarrow> bool" where
  "clear_shown p = (case clearButton p of None \<Rightarrow> True | Some b \<Rightarrow> b)"

text \<open>
  The mount: \<open>useState(defaultValue)\<close> (line 93) starts the local value at the \<open>value\<close>
  prop as it is given. The effect of lines 95-99 then leaves it as it is, and
  \<open>useDebounce(..., debounceTime, [value])\<close> (line 101) arms the timer, as an effect does on
  the first render.
\<close>

definition mount :: "base_props \<Rightarrow> base_state" where
  "mount p = \<lparr>props = p, local_value = value_prop p, timer = reset (delay p) None\<rparr>"

text \<open>
  The effect of lines 95-99, \<open>setValue(prev => prev !== defaultValue ? defaultValue : prev)\<close>.
\<close>

definition adopt :: "string option \<Rightarrow> string option \<Rightarrow> string option" where
  "adopt defaultValue prevValue =
     (if prevValue \<noteq> defaultValue then defaultValue else prevValue)"

text \<open>
  A render with new props. The effect of lines 95-99 has the dependency list
  \<open>[defaultValue]\<close>: it runs when the \<open>value\<close> prop differs from the one of the previous
  render. The timer is armed again when the local value has changed (the dependency list
  \<open>[value]\<close> of line 101); the hook also arms it again when the delay it is given has
  changed.
\<close>

definition rerender :: "base_props \<Rightarrow> base_state \<Rightarrow> base_state" where
  "rerender p s =
     (let v = (if value_prop p \<noteq> value_prop (props s)
               then adopt (value_prop p) (local_value s) else local_value s)
      in \<lparr>props = p, local_value = v,
          timer = (if v \<noteq> local_value s \<or> delay p \<noteq> delay (props s)
                   then reset (delay p) (timer s) else timer s)\<rparr>)"

text \<open>
  \<open>handleChange\<close> (lines 103-108): \<open>setValue(e.target.value)\<close>. Setting the cell to the value
  it holds changes nothing and runs no effect; a new value is rendered, and the effect of
  line 101 arms the timer again.
\<close>

definition handleChange :: "string \<Rightarrow> base_state \<Rightarrow> base_state" where
  "handleChange t s =
     (if local_value s = Some t then s
      else s\<lparr>local_value := Some t, timer := reset (delay (props s)) (timer s)\<rparr>)"

text \<open>\<open>handleKeyDown\<close> (lines 110-118), on a key event with \<open>e.key = k\<close>.\<close>

definition handleKeyDown :: "string \<Rightarrow> base_state \<Rightarrow> call list" where
  "handleKeyDown k s =
     (if onKeyDown (props s) then [OnKeyDown k] else []) @
     (if onSubmit (props s) \<and> k = ''Enter'' then [OnSubmit] else [])"

text \<open>\<open>handleClear\<close> (lines 120-122): \<open>onChange('')\<close>, and nothing else.\<close>

definition handleClear :: "base_state \<Rightarrow> call list" where
  "handleClear s = [OnChange (Some [])]"

text \<open>
  Time passes. When the timeout fires, the callback of line 101, \<open>() => onChange(value)\<close>
  of the last render, is called: it reports the local value of that moment.
\<close>

definition advance :: "nat \<Rightarrow> base_state \<Rightarrow> base_state \<times> call list" where
  "advance n s =
     (case elapse n (timer s) of
        (pending, fired) \<Rightarrow>
          (s\<lparr>timer := pending\<rparr>, if fired then [OnChange (local_value s)] else []))"

text \<open>
  One action on the rendered input. The clear button is rendered only when \<open>clearButton\<close>
  holds (line 151); without it there is nothing to click.
\<close>

fun act :: "action \<Rightarrow> base_state \<Rightarrow> base_state \<times> call list" where
  "act (Edit t) s = (handleChange t s, [])"
| "act (KeyDown k) s = (s, handleKeyDown k s)"
| "act Clear s = (s, if clear_shown (props s) then handleClear s else [])"
| "act (Advance n) s = advance n s"

text \<open>A sequence of actions, with all the calls it makes.\<close>

fun acts :: "action list \<Rightarrow> base_state \<Rightarrow> base_state \<times> call list" where
  "acts [] s = (s, [])"
| "acts (a # as) s =
     (case act a s of (s1, cs1) \<Rightarrow>
        (case acts as s1 of (s2, cs2) \<Rightarrow> (s2, cs1 @ cs2)))"

text \<open>
  The placeholder of lines 124-126. The configuration API is a collaborator: it is the
  parameter \<open>getOptionalString\<close>, a lookup from keys to optional strings. \<open>||\<close> takes its
  right operand when the left one is \<open>undefined\<close> or the empty string.
\<close>

definition placeholder :: "(string \<Rightarrow> string option) \<Rightarrow> string" where
  "placeholder getOptionalString =
     ''Search in '' @
     (case getOptionalString ''app.title'' of
        None \<Rightarrow> ''Backstage''
      | Some t \<Rightarrow> if t = [] then ''Backstage'' else t)"



subsection \<open>The shared search context and useSearchBarState (lines 162-175)\<close>

text \<open>
  \<open>SearchBarInputProps = Partial<SearchBarBaseProps>\<close> (line 182): the same options, with
  \<open>onChange\<close> optional as well.
\<close>

record input_props = base_props +
  onChange :: bool

text \<open>
  The state of a mounted \<open>SearchBarInput\<close>: its props, the term of the search context it
  reads through \<open>useSearch()\<close>, and the \<open>SearchBarBase\<close> it renders.
\<close>

record input_state =
  iprops :: input_props
  ctx_term :: "string option"
  base :: base_state

text \<open>
  Modelled from the spec: the search context (\<open>useSearch\<close>, imported from \<open>../../context\<close>)
  is not part of the source. Section 6: an external "shared search context" collaborator,
  "read current term, write new term"; glossary: "mutable state exposing a current search term
  and its setter". The context is the cell \<open>ctx_term\<close>, and \<open>setTerm\<close> stores into it.
\<close>

definition setTerm :: "string option \<Rightarrow> input_state \<Rightarrow> input_state" where
  "setTerm v s = s\<lparr>ctx_term := v\<rparr>"

text \<open>
  JavaScript's truthiness and \<open>String(...)\<close>, on a value that is a string or \<open>undefined\<close>.
\<close>

definition truthy :: "string option \<Rightarrow> bool" where
  "truthy v = (case v of None \<Rightarrow> False | Some t \<Rightarrow> t \<noteq> [])"

definition js_String :: "string option \<Rightarrow> string" where
  "js_String v = (case v of None \<Rightarrow> ''undefined'' | Some t \<Rightarrow> t)"

text \<open>
  The effect of \<open>useSearchBarState\<close> (lines 168-172):
  \<open>if (defaultValue) { setValue(String(defaultValue)) }\<close>, where \<open>setValue\<close> is the setter of
  the context. It returns the term afterwards and the call made.
\<close>

definition useSearchBarState :: "string option \<Rightarrow> string option \<Rightarrow> string option \<times> call list" where
  "useSearchBarState defaultValue t =
     (if truthy defaultValue
      then (Some (js_String defaultValue), [SetTerm (Some (js_String defaultValue))])
      else (t, []))"

subsection \<open>SearchBarInput (lines 189-212)\<close>

text \<open>\<open>value: defaultValue = ''\<close> (line 190).\<close>

definition input_default :: "input_props \<Rightarrow> string option" where
  "input_default p = (case value_prop p of None \<Rightarrow> Some [] | Some v \<Rightarrow> Some v)"

text \<open>
  The props of the inner component, line 208:
  \<open><SearchBarBase {...rest} value={value} onChange={handleChange} />\<close>, with \<open>value\<close> the term
  of the context.
\<close>

definition base_props_of :: "input_props \<Rightarrow> string option \<Rightarrow> base_props" where
  "base_props_of p t =
     \<lparr>debounceTime = debounceTime p, clearButton = clearButton p, onClear = onClear p,
      onSubmit = onSubmit p, onKeyDown = onKeyDown p, inputProps_attrs = inputProps_attrs p,
      value_prop = t\<rparr>"

text \<open>A render of \<open>SearchBarInput\<close> with its current props and the current term.\<close>

definition input_sync :: "input_state \<Rightarrow> input_state" where
  "input_sync s = s\<lparr>base := rerender (base_props_of (iprops s) (ctx_term s)) (base s)\<rparr>"

text \<open>
  \<open>handleChange\<close> of \<open>SearchBarInput\<close> (lines 193-202). A write to the context renders the
  component again, with the new term.
\<close>

definition input_handleChange :: "string option \<Rightarrow> input_state \<Rightarrow> input_state \<times> call list" where
  "input_handleChange newValue s =
     (if onChange (iprops s) then (s, [OnChange newValue])
      else (input_sync (setTerm newValue s), [SetTerm newValue]))"

text \<open>
  The calls of the inner \<open>SearchBarBase\<close>, as \<open>SearchBarInput\<close> wired them: its \<open>onChange\<close> is
  \<open>handleChange\<close>, the other callbacks are the caller's own (\<open>...rest\<close>).
\<close>

fun input_deliver :: "call list \<Rightarrow> input_state \<Rightarrow> input_state \<times> call list" where
  "input_deliver [] s = (s, [])"
| "input_deliver (OnChange v # cs) s =
     (case input_handleChange v s of (s1, out1) \<Rightarrow>
        (case input_deliver cs s1 of (s2, out2) \<Rightarrow> (s2, out1 @ out2)))"
| "input_deliver (c # cs) s =
     (case input_deliver cs s of (s2, out2) \<Rightarrow> (s2, c # out2))"

text \<open>
  The mount. The inner component is mounted with the term of the context; then the effect
  of \<open>useSearchBarState(defaultValue)\<close> runs.
\<close>

definition input_mount :: "input_props \<Rightarrow> string option \<Rightarrow> input_state \<times> call list" where
  "input_mount p t0 =
     (case useSearchBarState (input_default p) t0 of
        (t1, out) \<Rightarrow>
          (input_sync \<lparr>iprops = p, ctx_term = t1, base = mount (base_props_of p t0)\<rparr>, out))"

text \<open>
  A render with new props. The effect of \<open>useSearchBarState\<close> has the dependency list
  \<open>[defaultValue, setValue]\<close>: it runs when the default value differs from the one of the
  previous render.
\<close>

definition input_rerender :: "input_props \<Rightarrow> input_state \<Rightarrow> input_state \<times> call list" where
  "input_rerender p s =
     (if input_default p \<noteq> input_default (iprops s)
      then (case useSearchBarState (input_default p) (ctx_term s) of
              (t1, out) \<Rightarrow> (input_sync (setTerm t1 (input_sync (s\<lparr>iprops := p\<rparr>))), out))
      else (input_sync (s\<lparr>iprops := p\<rparr>), []))"

text \<open>An action on the rendered input.\<close>

definition input_act :: "action \<Rightarrow> input_state \<Rightarrow> input_state \<times> call list" where
  "input_act a s =
     (case act a (base s) of (b, cs) \<Rightarrow> input_deliver cs (s\<lparr>base := b\<rparr>))"

text \<open>Another component writes the term of the context.\<close>

definition input_ctx_write :: "string option \<Rightarrow> input_state \<Rightarrow> input_state" where
  "input_ctx_write t s = input_sync (setTerm t s)"

text \<open>Everything that can happen to a mounted \<open>SearchBarInput\<close>.\<close>

datatype input_event =
  IAct action
| IRender input_props
| ICtx "string option"

fun input_step :: "input_event \<Rightarrow> input_state \<Rightarrow> input_state \<times> call list" where
  "input_step (IAct a) s = input_act a s"
| "input_step (IRender p) s = input_rerender p s"
| "input_step (ICtx t) s = (input_ctx_write t s, [])"

fun input_run :: "input_event list \<Rightarrow> input_state \<Rightarrow> input_state \<times> call list" where
  "input_run [] s = (s, [])"
| "input_run (e # es) s =
     (case input_step e s of (s1, out1) \<Rightarrow>
        (case input_run es s1 of (s2, out2) \<Rightarrow> (s2, out1 @ out2)))"

subsection \<open>SearchBarAutocomplete (lines 250-309)\<close>

text \<open>
  \<open>SearchBarAutocompleteProps\<close> (lines 233-243), restricted to \<open>inputProps\<close>
  (\<open>inputProps = {}\<close>, line 259: an absent one has every option absent). The selection list
  itself belongs to the widget library and is not modelled; what is, is the text input the
  component renders in it, through \<open>renderInput\<close> (line 287), with the \<open>params\<close> the widget
  passes to it.
\<close>

record auto_props =
  inputProps :: input_props

text \<open>
  The state of a mounted \<open>SearchBarAutocomplete\<close>: its props, the \<open>params\<close> of the
  widget's last call of \<open>renderInput\<close>, and the \<open>SearchBarInput\<close> it renders. Both components
  read the same context: its term is the one kept in \<open>inner\<close>. The \<open>params\<close> are the widget's
  own and are taken as they come; of them, the \<open>inputProps\<close> are kept (\<open>None\<close> when the
  \<open>params\<close> have none), which carry the text the widget wants in the element as their
  \<open>value\<close>. The other \<open>params\<close> name none of the options of \<open>base_props\<close>.
\<close>

record auto_state =
  aprops :: auto_props
  params :: "attrs option"
  inner :: input_state

text \<open>
  The props of the inner component, lines 288-292:
  \<open><SearchBarInput {...params} {...restInput} value={inputValue} onChange={handleInputChange} />\<close>,
  with \<open>inputValue\<close> the term of the context. \<open>restInput\<close> is spread after \<open>params\<close>: the
  \<open>inputProps\<close> of the \<open>params\<close> reach the inner component unless the caller gave some of
  their own.
\<close>

definition input_props_of :: "auto_props \<Rightarrow> attrs option \<Rightarrow> string option \<Rightarrow> input_props" where
  "input_props_of p prm t =
     \<lparr>debounceTime = debounceTime (inputProps p), clearButton = clearButton (inputProps p),
      onClear = onClear (inputProps p), onSubmit = onSubmit (inputProps p),
      onKeyDown = onKeyDown (inputProps p),
      inputProps_attrs =
        (case inputProps_attrs (inputProps p) of None \<Rightarrow> prm | Some a \<Rightarrow> Some a),
      value_prop = t, onChange = True\<rparr>"

text \<open>
  A render of \<open>SearchBarAutocomplete\<close> with its current props, the current \<open>params\<close> and the
  current term: the inner \<open>SearchBarInput\<close> is rendered with the term as its \<open>value\<close>.
\<close>

definition auto_sync :: "auto_state \<Rightarrow> auto_state \<times> call list" where
  "auto_sync s =
     (case input_rerender (input_props_of (aprops s) (params s) (ctx_term (inner s))) (inner s) of
        (i, out) \<Rightarrow> (s\<lparr>inner := i\<rparr>, out))"

text \<open>\<open>handleInputChange\<close> (lines 271-280).\<close>

definition handleInputChange :: "string option \<Rightarrow> auto_state \<Rightarrow> auto_state \<times> call list" where
  "handleInputChange newValue s =
     (if onChange (inputProps (aprops s)) then (s, [OnChange newValue])
      else (case auto_sync (s\<lparr>inner := setTerm newValue (inner s)\<rparr>) of
              (s1, out) \<Rightarrow> (s1, SetTerm newValue # out)))"

text \<open>
  The calls of the inner \<open>SearchBarInput\<close>: its \<open>onChange\<close> is \<open>handleInputChange\<close>, the
  other callbacks are the caller's own (\<open>...restInput\<close>), and a write to the context is what
  it is.
\<close>

fun auto_deliver :: "call list \<Rightarrow> auto_state \<Rightarrow> auto_state \<times> call list" where
  "auto_deliver [] s = (s, [])"
| "auto_deliver (OnChange v # cs) s =
     (case handleInputChange v s of (s1, out1) \<Rightarrow>
        (case auto_deliver cs s1 of (s2, out2) \<Rightarrow> (s2, out1 @ out2)))"
| "auto_deliver (c # cs) s =
     (case auto_deliver cs s of (s2, out2) \<Rightarrow> (s2, c # out2))"

text \<open>
  The mount: the inner \<open>SearchBarInput\<close> is mounted, with its own effect, and then the
  effect of \<open>useSearchBarState(defaultInputValue)\<close> (line 269) runs; \<open>defaultInputValue\<close> has
  no default of its own (line 263).
\<close>

definition auto_mount ::
  "auto_props \<Rightarrow> attrs option \<Rightarrow> string option \<Rightarrow> auto_state \<times> call list" where
  "auto_mount p prm t0 =
     (case input_mount (input_props_of p prm t0) t0 of
        (i0, out0) \<Rightarrow>
          (case useSearchBarState (value_prop (inputProps p)) (ctx_term i0) of
             (t1, out1) \<Rightarrow>
               (case auto_sync \<lparr>aprops = p, params = prm, inner = setTerm t1 i0\<rparr> of
                  (s2, out2) \<Rightarrow> (s2, out0 @ out1 @ out2))))"

text \<open>
  A render with new props, an action on the rendered input, a write by another component,
  a render of the input by the widget with other \<open>params\<close>.
\<close>

definition auto_rerender :: "auto_props \<Rightarrow> auto_state \<Rightarrow> auto_state \<times> call list" where
  "auto_rerender p s =
     (case auto_sync (s\<lparr>aprops := p\<rparr>) of
        (s1, out1) \<Rightarrow>
          if value_prop (inputProps p) \<noteq> value_prop (inputProps (aprops s))
          then (case useSearchBarState (value_prop (inputProps p)) (ctx_term (inner s1)) of
                  (t1, out2) \<Rightarrow>
                    (case auto_sync (s1\<lparr>inner := setTerm t1 (inner s1)\<rparr>) of
                       (s3, out3) \<Rightarrow> (s3, out1 @ out2 @ out3)))
          else (s1, out1))"

definition auto_act :: "action \<Rightarrow> auto_state \<Rightarrow> auto_state \<times> call list" where
  "auto_act a s =
     (case input_act a (inner s) of (i, cs) \<Rightarrow> auto_deliver cs (s\<lparr>inner := i\<rparr>))"

definition auto_ctx_write :: "string option \<Rightarrow> auto_state \<Rightarrow> auto_state \<times> call list" where
  "auto_ctx_write t s = auto_sync (s\<lparr>inner := setTerm t (inner s)\<rparr>)"

definition auto_params :: "attrs option \<Rightarrow> auto_state \<Rightarrow> auto_state \<times> call list" where
  "auto_params prm s = auto_sync (s\<lparr>params := prm\<rparr>)"

datatype auto_event =
  AAct action
| ARender auto_props
| ACtx "string option"
| AParams "attrs option"

fun auto_step :: "auto_event \<Rightarrow> auto_state \<Rightarrow> auto_state \<times> call list" where
  "auto_step (AAct a) s = auto_act a s"
| "auto_step (ARender p) s = auto_rerender p s"
| "auto_step (ACtx t) s = auto_ctx_write t s"
| "auto_step (AParams prm) s = auto_params prm s"

fun auto_run :: "auto_event list \<Rightarrow> auto_state \<Rightarrow> auto_state \<times> call list" where
  "auto_run [] s = (s, [])"
| "auto_run (e # es) s =
     (case auto_step e s of (s1, out1) \<Rightarrow>
        (case auto_run es s1 of (s2, out2) \<Rightarrow> (s2, out1 @ out2)))"

subsection \<open>States between two events\<close>

text \<open>
  Between two events the inner \<open>SearchBarBase\<close> of a \<open>SearchBarInput\<close> has been rendered
  with the props of line 208 for the current term, and the inner \<open>SearchBarInput\<close> of a
  \<open>SearchBarAutocomplete\<close> has moreover been given a callback (line 292). The mount
  establishes this and every event keeps it, as shown below.
\<close>

definition input_inv :: "input_state \<Rightarrow> bool" where
  "input_inv s = (props (base s) = base_props_of (iprops s) (ctx_term s))"

definition auto_inv :: "auto_state \<Rightarrow> bool" where
  "auto_inv s = (input_inv (inner s) \<and> onChange (iprops (inner s)))"

text \<open>The state of a component after its mount, with a given term in the context, and a
  sequence of events.\<close>

definition input_after :: "input_event list \<Rightarrow> input_props \<Rightarrow> string option \<Rightarrow> input_state" where
  "input_after es p t0 = fst (input_run es (fst (input_mount p t0)))"

definition auto_after ::
  "auto_event list \<Rightarrow> auto_props \<Rightarrow> attrs option \<Rightarrow> string option \<Rightarrow> auto_state" where
  "auto_after es p prm t0 = fst (auto_run es (fst (auto_mount p prm t0)))"

subsection \<open>Observations on a run\<close>

text \<open>The values passed to \<open>onChange\<close> among the calls of a run, in order.\<close>

fun reported :: "call list \<Rightarrow> string option list" where
  "reported [] = []"
| "reported (OnChange v # cs) = v # reported cs"
| "reported (c # cs) = reported cs"

text \<open>The time that passes during a sequence of actions.\<close>

fun elapsed :: "action list \<Rightarrow> nat" where
  "elapsed [] = 0"
| "elapsed (Advance n # as) = n + elapsed as"
| "elapsed (a # as) = elapsed as"

text \<open>No timeout fires within the next \<open>e\<close> milliseconds.\<close>

definition safe :: "nat \<Rightarrow> base_state \<Rightarrow> bool" where
  "safe e s = (case timer s of None \<Rightarrow> True | Some r \<Rightarrow> e < r)"

subsection \<open>Sample props\<close>

text \<open>
  \<open><SearchBarBase onChange={f} />\<close>, \<open><SearchBarInput />\<close> and
  \<open><SearchBarAutocomplete />\<close>: nothing optional is supplied.
\<close>

definition bare :: base_props where
  "bare = \<lparr>debounceTime = None, clearButton = None, onClear = False, onSubmit = False,
           onKeyDown = False, inputProps_attrs = None, value_prop = None\<rparr>"

definition bare_input :: input_props where
  "bare_input = \<lparr>debounceTime = None, clearButton = None, onClear = False, onSubmit = False,
                 onKeyDown = False, inputProps_attrs = None, value_prop = None,
                 onChange = False\<rparr>"

definition bare_auto :: auto_props where
  "bare_auto = \<lparr>inputProps = bare_input\<rparr>"

section \<open>Properties\<close>

subsection \<open>The timer in isolation\<close>

lemma acts_append:
  "acts (xs @ ys) s =
     (case acts xs s of (s1, cs1) \<Rightarrow>
        (case acts ys s1 of (s2, cs2) \<Rightarrow> (s2, cs1 @ cs2)))"
  by (induction xs arbitrary: s) (auto split: prod.splits)

lemma acts_Cons_snd: "snd (acts (a # as) s) = snd (act a s) @ snd (acts as (fst (act a s)))"
  by (simp add: split_beta)

lemma timer_same: "timer s = t \<Longrightarrow> s\<lparr>timer := t\<rparr> = s"
  by (cases s) simp

text \<open>While nothing is pending, the passing of time makes no call.\<close>

lemma idle_quiet:
  "timer s = None \<Longrightarrow> acts (map Advance ns) s = (s, [])"
  by (induction ns) (auto simp: advance_def elapse_def timer_same)

text \<open>
  A pending timeout with \<open>r\<close> milliseconds to go fires during a sequence of waits exactly when
  the waits add up to \<open>r\<close> or more, then once, with the local value.
\<close>

lemma pending_fires:
  "timer s = Some r \<Longrightarrow>
     acts (map Advance ns) s =
       (if ns \<noteq> [] \<and> r \<le> sum_list ns
        then (s\<lparr>timer := None\<rparr>, [OnChange (local_value s)])
        else (s\<lparr>timer := Some (r - sum_list ns)\<rparr>, []))"
proof (induction ns arbitrary: s r)
  case Nil
  then show ?case by simp
next
  case (Cons n ns)
  show ?case
  proof (cases "r \<le> n")
    case True
    have "timer (s\<lparr>timer := None\<rparr>) = None" by simp
    from idle_quiet [OF this, of ns] True Cons.prems show ?thesis
      by (simp add: advance_def elapse_def)
  next
    case False
    have "timer (s\<lparr>timer := Some (r - n)\<rparr>) = Some (r - n)" by simp
    from Cons.IH [OF this] False Cons.prems show ?thesis
      by (auto simp: advance_def elapse_def)
  qed
qed

lemma act_props: "act a s = (s', cs) \<Longrightarrow> props s' = props s"
  by (cases a) (auto simp: handleChange_def advance_def elapse_def split: option.splits if_splits)

lemma act_props_fst: "props (fst (act a s)) = props s"
  using act_props [of a s "fst (act a s)" "snd (act a s)"] by simp

lemma acts_props: "acts as s = (s', cs) \<Longrightarrow> props s' = props s"
  by (induction as arbitrary: s s' cs) (auto split: prod.splits dest: act_props)

text \<open>
  An edit that changes the text, followed by waits: nothing is reported while the waits add
  up to less than the delay, and the new text is reported once when they reach it.
\<close>

lemma edit_then_wait:
  assumes "local_value s \<noteq> Some T"
  shows "acts (Edit T # map Advance ns) s =
           (if ns \<noteq> [] \<and> delay (props s) \<le> sum_list ns
            then (s\<lparr>local_value := Some T, timer := None\<rparr>, [OnChange (Some T)])
            else (s\<lparr>local_value := Some T, timer := Some (delay (props s) - sum_list ns)\<rparr>, []))"
proof -
  let ?s1 = "s\<lparr>local_value := Some T, timer := Some (delay (props s))\<rparr>"
  have t: "timer ?s1 = Some (delay (props s))" by simp
  have e: "handleChange T s = ?s1"
    using assms by (simp add: handleChange_def reset_def)
  show ?thesis
    using pending_fires [OF t, of ns] by (simp add: e)
qed

lemma last_edit_reported:
  assumes "local_value (fst (acts pre s0)) \<noteq> Some T"
    and "ns \<noteq> []" and "delay (props s0) \<le> sum_list ns"
  shows "snd (acts (pre @ Edit T # map Advance ns) s0) = snd (acts pre s0) @ [OnChange (Some T)]
         \<and> local_value (fst (acts (pre @ Edit T # map Advance ns) s0)) = Some T"
proof -
  obtain s cs where p: "acts pre s0 = (s, cs)" by (cases "acts pre s0")
  have l: "local_value s \<noteq> Some T" using assms(1) p by simp
  have d: "delay (props s) = delay (props s0)" using acts_props [OF p] by simp
  show ?thesis
    using edit_then_wait [OF l, of ns] assms(2,3) p d
    by (simp add: acts_append del: acts.simps)
qed

lemma reported_append: "reported (xs @ ys) = reported xs @ reported ys"
  by (induction xs rule: reported.induct) simp_all

lemma reported_keys: "reported (handleKeyDown k s) = []"
  by (simp add: handleKeyDown_def)

text \<open>
  Edits, keys and waits that take less than the delay and less than what the pending
  timeout has to go report nothing.
\<close>

lemma quiet_while_safe:
  "Clear \<notin> set as \<Longrightarrow> elapsed as < delay (props s) \<Longrightarrow> safe (elapsed as) s \<Longrightarrow>
     reported (snd (acts as s)) = []"
proof (induction as arbitrary: s)
  case Nil
  show ?case by simp
next
  case (Cons a as)
  have rest: "Clear \<notin> set as" using Cons.prems(1) by simp
  have step: "reported (snd (act a s)) = [] \<and> elapsed as < delay (props (fst (act a s)))
      \<and> safe (elapsed as) (fst (act a s))"
  proof (cases a)
    case (Edit t)
    with Cons.prems show ?thesis
      by (auto simp: handleChange_def reset_def safe_def)
  next
    case (KeyDown k)
    with Cons.prems show ?thesis by (simp add: reported_keys)
  next
    case Clear
    with Cons.prems show ?thesis by simp
  next
    case (Advance n)
    with Cons.prems show ?thesis
      by (auto simp: advance_def elapse_def safe_def split: option.splits)
  qed
  from Cons.IH [OF rest] step show ?case
    by (simp only: acts_Cons_snd reported_append) simp
qed

text \<open>
  Edits, keys and waits that take less than the delay report at most once: the timeout that
  was pending at the start may fire, and no timeout armed since can.
\<close>

lemma at_most_one_report:
  "Clear \<notin> set as \<Longrightarrow> elapsed as < delay (props s) \<Longrightarrow>
     length (reported (snd (acts as s))) \<le> 1"
proof (induction as arbitrary: s)
  case Nil
  show ?case by simp
next
  case (Cons a as)
  have rest: "Clear \<notin> set as" using Cons.prems(1) by simp
  have el: "elapsed as < delay (props (fst (act a s)))"
    using Cons.prems(2) by (cases a) (simp_all add: act_props_fst del: act.simps)
  show ?case
  proof (cases "reported (snd (act a s)) = [] \<and> \<not> safe (elapsed as) (fst (act a s))")
    case True
    with Cons.IH [OF rest el] show ?thesis
      by (simp only: acts_Cons_snd reported_append) simp
  next
    case False
    have one: "length (reported (snd (act a s))) \<le> 1"
      by (cases a)
        (simp_all add: reported_keys handleClear_def advance_def elapse_def split: option.splits)
    have "safe (elapsed as) (fst (act a s))"
    proof (cases a)
      case (Edit t)
      with False show ?thesis by simp
    next
      case (KeyDown k)
      with False show ?thesis by (simp add: reported_keys)
    next
      case Clear
      with Cons.prems show ?thesis by simp
    next
      case (Advance n)
      with False show ?thesis
        by (auto simp: advance_def elapse_def safe_def split: option.splits if_splits)
    qed
    from quiet_while_safe [OF rest el this] one show ?thesis
      by (simp only: acts_Cons_snd reported_append) simp
  qed
qed

subsection \<open>Debounced propagation\<close>

text \<open>
  C1. Let any sequence of actions \<open>pre\<close> (edits, keys, clears, waits) be followed by a last
  edit that changes the text to \<open>T\<close>, and then by nothing but the passing of time, for the
  delay or longer, in waits of any lengths. Then, after the last edit, \<open>onChange\<close> is called
  exactly once, with \<open>T\<close>, which is the local value at that time. (An edit event carries a
  text that differs from the displayed one: the input only reports changes.) Moreover, in any
  state, edits, keys and waits that take less than the delay altogether make at most one
  call of \<open>onChange\<close>: the debounced callback is never called twice within one window.
\<close>

theorem debounce_delivers_final_text:
  "(local_value (fst (acts pre s0)) \<noteq> Some T \<and> ns \<noteq> [] \<and> delay (props s0) \<le> sum_list ns \<longrightarrow>
      snd (acts (pre @ Edit T # map Advance ns) s0) = snd (acts pre s0) @ [OnChange (Some T)]
      \<and> local_value (fst (acts (pre @ Edit T # map Advance ns) s0)) = Some T)
   \<and> (Clear \<notin> set as \<and> elapsed as < delay (props s) \<longrightarrow>
      length (reported (snd (acts as s))) \<le> 1)"
  using last_edit_reported [of pre s0 T ns] at_most_one_report [of as s] by blast

text \<open>
  The example of the specification: with the delay of 200 ms, "cat" typed within 40 ms and
  then left alone is reported once, and neither "c" nor "ca" is. And 199 ms that start with a
  report see no second one.
\<close>

theorem debounce_delivers_final_text_witness:
  "snd (acts ([Edit ''c'', Advance 20, Edit ''ca'', Advance 20] @
              Edit ''cat'' # map Advance [150, 50, 1000])
          (mount (bare\<lparr>value_prop := Some []\<rparr>)))
     = [OnChange (Some ''cat'')]
   \<and> length (reported (snd (acts [Advance 0, Edit ''d'', Advance 199]
        (fst (acts [Edit ''c'', Advance 200] (mount (bare\<lparr>value_prop := Some []\<rparr>))))))) \<le> 1"
  using debounce_delivers_final_text [of "[Edit ''c'', Advance 20, Edit ''ca'', Advance 20]"
     "mount (bare\<lparr>value_prop := Some []\<rparr>)" "''cat''" "[150, 50, 1000]"
     "[Advance 0, Edit ''d'', Advance 199]"
     "fst (acts [Edit ''c'', Advance 200] (mount (bare\<lparr>value_prop := Some []\<rparr>)))"]
  by (simp add: mount_def bare_def handleChange_def advance_def elapse_def reset_def delay_def)

text \<open>
  C2. Two edits that change the text, first to \<open>a\<close> and then to \<open>b\<close>, less than the delay
  apart: whatever time passes afterwards, \<open>a\<close> is never reported; \<open>b\<close> is, once, when the
  waits after the second edit reach the delay, and nothing is reported before. The second
  edit leaves one timeout pending, with the whole delay to go.
\<close>

theorem later_edit_supersedes:
  assumes "local_value s \<noteq> Some a" and "a \<noteq> b" and "sum_list ns < delay (props s)"
  shows "snd (acts (Edit a # map Advance ns @ Edit b # map Advance ms) s) =
           (if ms \<noteq> [] \<and> delay (props s) \<le> sum_list ms then [OnChange (Some b)] else [])
         \<and> OnChange (Some a) \<notin> set (snd (acts (Edit a # map Advance ns @ Edit b # map Advance ms) s))
         \<and> timer (fst (acts (Edit a # map Advance ns @ [Edit b]) s)) = Some (delay (props s))"
proof -
  let ?s1 = "s\<lparr>local_value := Some a, timer := Some (delay (props s) - sum_list ns)\<rparr>"
  have first: "acts (Edit a # map Advance ns) s = (?s1, [])"
    using edit_then_wait [OF assms(1), of ns] assms(3) by simp
  have l: "local_value ?s1 \<noteq> Some b" using assms(2) by simp
  have second: "acts (Edit b # map Advance ms) ?s1 =
      (if ms \<noteq> [] \<and> delay (props s) \<le> sum_list ms
       then (?s1\<lparr>local_value := Some b, timer := None\<rparr>, [OnChange (Some b)])
       else (?s1\<lparr>local_value := Some b, timer := Some (delay (props s) - sum_list ms)\<rparr>, []))"
    using edit_then_wait [OF l, of ms] by simp
  have whole: "acts (Edit a # map Advance ns @ Edit b # map Advance ms) s =
      (case acts (Edit b # map Advance ms) ?s1 of (s2, cs2) \<Rightarrow> (s2, cs2))"
    using acts_append [of "Edit a # map Advance ns" "Edit b # map Advance ms" s] first
    by (simp del: acts.simps)
  have third: "acts (Edit a # map Advance ns @ [Edit b]) s =
      (case acts [Edit b] ?s1 of (s2, cs2) \<Rightarrow> (s2, cs2))"
    using acts_append [of "Edit a # map Advance ns" "[Edit b]" s] first
    by (simp del: acts.simps)
  have rearm: "timer (fst (acts [Edit b] ?s1)) = Some (delay (props s))"
    using assms(2) by (simp add: handleChange_def reset_def)
  show ?thesis
    using assms(2) rearm by (simp add: whole third second del: acts.simps)
qed

theorem later_edit_supersedes_witness:
  "snd (acts (Edit ''ca'' # map Advance [100, 99] @ Edit ''cat'' # map Advance [100, 100])
          (mount (bare\<lparr>value_prop := Some ''c''\<rparr>)))
     = [OnChange (Some ''cat'')]"
  using later_edit_supersedes [of "mount (bare\<lparr>value_prop := Some ''c''\<rparr>)"
     "''ca''" "''cat''" "[100, 99]" "[100, 100]"]
  by (simp add: mount_def bare_def delay_def)

subsection \<open>Keys, placeholder, clear\<close>

text \<open>
  C6. A key event changes nothing in the component, and the calls it makes do not depend on
  the local value or on the pending timeout. When \<open>onSubmit\<close> is supplied, the Enter key
  calls it exactly once, within the key event; when it is not supplied, no key event makes
  a submit call.
\<close>

theorem enter_submits_at_once:
  "fst (act (KeyDown k) s) = s
   \<and> snd (act (KeyDown k) (s\<lparr>local_value := v, timer := pending\<rparr>)) = snd (act (KeyDown k) s)
   \<and> (onSubmit (props s) \<longrightarrow> count_list (snd (act (KeyDown ''Enter'') s)) OnSubmit = 1)
   \<and> (\<not> onSubmit (props s) \<longrightarrow> OnSubmit \<notin> set (snd (act (KeyDown k) s)))"
  by (simp add: handleKeyDown_def)

theorem enter_submits_at_once_witness:
  "snd (act (KeyDown ''Enter'') (fst (act (Edit ''abc'') (mount (bare\<lparr>onSubmit := True\<rparr>)))))
     = [OnSubmit]
   \<and> snd (act (KeyDown ''Enter'') (fst (act (Edit ''abc'') (mount bare)))) = []"
  using enter_submits_at_once [of "''Enter''" "fst (act (Edit ''abc'') (mount (bare\<lparr>onSubmit := True\<rparr>)))"]
    enter_submits_at_once [of "''Enter''" "fst (act (Edit ''abc'') (mount bare))"]
  by (simp add: handleKeyDown_def mount_def bare_def handleChange_def)

text \<open>
  C9. The placeholder depends on the configuration through the lookup of \<open>app.title\<close> alone,
  and when that lookup gives a non-empty title \<open>t\<close>, the placeholder is "Search in "
  followed by \<open>t\<close>.
\<close>

theorem placeholder_from_title:
  "(getOptionalString ''app.title'' = Some t \<and> t \<noteq> [] \<longrightarrow>
      placeholder getOptionalString = ''Search in '' @ t)
   \<and> (getOptionalString ''app.title'' = other ''app.title'' \<longrightarrow>
      placeholder getOptionalString = placeholder other)"
  by (simp add: placeholder_def)

theorem placeholder_from_title_witness:
  "placeholder (\<lambda>k. if k = ''app.title'' then Some ''Acme'' else None) = ''Search in Acme''"
  using placeholder_from_title [of "\<lambda>k. if k = ''app.title'' then Some ''Acme'' else None" "''Acme''"
      "\<lambda>k. if k = ''app.title'' then Some ''Acme'' else None"]
  by simp

text \<open>No action on a \<open>SearchBarBase\<close> ever calls \<open>onClear\<close>.\<close>

lemma act_never_onClear: "OnClear \<notin> set (snd (act a s))"
  by (cases a)
    (auto simp: handleKeyDown_def handleClear_def advance_def elapse_def split: option.splits)

text \<open>
  C7. The component is given an \<open>onClear\<close> callback and shows its clear button; a click on
  the button calls \<open>onChange('')\<close> and does not call \<open>onClear\<close>.
\<close>

theorem clear_ignores_onClear:
  "onClear (props (mount (bare\<lparr>onClear := True\<rparr>)))
   \<and> clear_shown (props (mount (bare\<lparr>onClear := True\<rparr>)))
   \<and> snd (act Clear (mount (bare\<lparr>onClear := True\<rparr>))) = [OnChange (Some [])]"
  by (simp add: mount_def bare_def clear_shown_def handleClear_def)

subsection \<open>What every event preserves\<close>


lemma rerender_props: "props (rerender p s) = p"
  by (simp add: rerender_def Let_def)

lemma rerender_same: "rerender (props s) s = s"
  by (simp add: rerender_def Let_def)

lemma input_sync_simps:
  "iprops (input_sync s) = iprops s" "ctx_term (input_sync s) = ctx_term s"
  "props (base (input_sync s)) = base_props_of (iprops s) (ctx_term s)"
  by (simp_all add: input_sync_def rerender_props)


lemma input_sync_inv: "input_inv (input_sync s)"
  by (simp add: input_inv_def input_sync_simps)

lemma input_sync_idem: "input_sync (input_sync s) = input_sync s"
  using rerender_same [of "rerender (base_props_of (iprops s) (ctx_term s)) (base s)"]
  by (simp add: input_sync_def rerender_props)

lemma setTerm_same: "setTerm (ctx_term s) s = s"
  by (simp add: setTerm_def)

lemma input_handleChange_inv:
  "input_inv s \<Longrightarrow> input_inv (fst (input_handleChange v s))
     \<and> iprops (fst (input_handleChange v s)) = iprops s"
  by (simp add: input_handleChange_def input_sync_inv input_sync_simps setTerm_def)

lemma input_deliver_inv:
  "input_inv s \<Longrightarrow> input_inv (fst (input_deliver cs s))
     \<and> iprops (fst (input_deliver cs s)) = iprops s"
proof (induction cs s rule: input_deliver.induct)
  case (2 v cs s)
  from input_handleChange_inv [OF "2.prems", of v]
  have i: "input_inv (fst (input_handleChange v s))"
    and p: "iprops (fst (input_handleChange v s)) = iprops s"
    by simp_all
  from "2.IH" [OF prod.collapse i] p show ?case
    by (simp add: split_beta)
qed (simp_all add: split_beta)

lemma input_act_inv:
  assumes "input_inv s"
  shows "input_inv (fst (input_act a s)) \<and> iprops (fst (input_act a s)) = iprops s"
proof -
  obtain b cs where a: "act a (base s) = (b, cs)" by (cases "act a (base s)")
  have "input_inv (s\<lparr>base := b\<rparr>)"
    using assms act_props [OF a] by (simp add: input_inv_def)
  from input_deliver_inv [OF this, of cs] a show ?thesis
    by (simp add: input_act_def)
qed

lemma input_rerender_fst:
  "fst (input_rerender p s) =
     input_sync (setTerm
       (if input_default p \<noteq> input_default (iprops s)
        then fst (useSearchBarState (input_default p) (ctx_term s)) else ctx_term s)
       (input_sync (s\<lparr>iprops := p\<rparr>)))"
  using setTerm_same [of "input_sync (s\<lparr>iprops := p\<rparr>)"]
  by (simp add: input_rerender_def split_beta input_sync_idem input_sync_simps)

lemma input_rerender_inv:
  "input_inv (fst (input_rerender p s)) \<and> iprops (fst (input_rerender p s)) = p"
  by (simp add: input_rerender_fst input_sync_inv input_sync_simps setTerm_def)






text \<open>
  The effect of a \<open>SearchBarInput\<close> whose \<open>value\<close> is the term itself stores the term it
  has read.
\<close>

lemma effect_of_own_term:
  "fst (useSearchBarState (input_default (input_props_of ap prm t)) t) = t"
  by (cases t) (simp_all add: useSearchBarState_def input_default_def input_props_of_def
      truthy_def js_String_def)

lemma auto_sync_inner:
  "inner (fst (auto_sync s)) =
     input_sync ((inner s)\<lparr>iprops := input_props_of (aprops s) (params s) (ctx_term (inner s))\<rparr>)"
  using setTerm_same [of "input_sync ((inner s)\<lparr>iprops := input_props_of (aprops s) (params s) (ctx_term (inner s))\<rparr>)"]
  by (simp add: auto_sync_def split_beta input_rerender_fst effect_of_own_term input_sync_idem
      input_sync_simps)

lemma auto_sync_inv: "auto_inv (fst (auto_sync s)) \<and> aprops (fst (auto_sync s)) = aprops s"
  using input_rerender_inv [of "input_props_of (aprops s) (params s) (ctx_term (inner s))" "inner s"]
  by (simp add: auto_sync_def auto_inv_def input_props_of_def split_beta)

lemma auto_sync_term: "ctx_term (inner (fst (auto_sync s))) = ctx_term (inner s)"
  by (simp add: auto_sync_inner input_sync_simps)

lemma handleInputChange_inv:
  "auto_inv s \<Longrightarrow> auto_inv (fst (handleInputChange v s))
     \<and> aprops (fst (handleInputChange v s)) = aprops s"
  using auto_sync_inv [of "s\<lparr>inner := setTerm v (inner s)\<rparr>"]
  by (simp add: handleInputChange_def split_beta)

lemma auto_deliver_inv:
  "auto_inv s \<Longrightarrow> auto_inv (fst (auto_deliver cs s)) \<and> aprops (fst (auto_deliver cs s)) = aprops s"
proof (induction cs s rule: auto_deliver.induct)
  case (2 v cs s)
  from handleInputChange_inv [OF "2.prems", of v]
  have i: "auto_inv (fst (handleInputChange v s))"
    and p: "aprops (fst (handleInputChange v s)) = aprops s"
    by simp_all
  from "2.IH" [OF prod.collapse i] p show ?case
    by (simp add: split_beta)
qed (simp_all add: split_beta)

lemma auto_act_inv:
  assumes "auto_inv s"
  shows "auto_inv (fst (auto_act a s)) \<and> aprops (fst (auto_act a s)) = aprops s"
proof -
  from assms input_act_inv [of "inner s" a]
  have "auto_inv (s\<lparr>inner := fst (input_act a (inner s))\<rparr>)"
    by (simp add: auto_inv_def)
  from auto_deliver_inv [OF this, of "snd (input_act a (inner s))"] show ?thesis
    by (simp add: auto_act_def split_beta)
qed

lemma auto_rerender_inv:
  "auto_inv (fst (auto_rerender p s)) \<and> aprops (fst (auto_rerender p s)) = p"
  using auto_sync_inv [of "s\<lparr>aprops := p\<rparr>"]
    auto_sync_inv [of "(fst (auto_sync (s\<lparr>aprops := p\<rparr>)))\<lparr>inner := setTerm (fst (useSearchBarState (value_prop (inputProps p)) (ctx_term (inner (fst (auto_sync (s\<lparr>aprops := p\<rparr>))))))) (inner (fst (auto_sync (s\<lparr>aprops := p\<rparr>))))\<rparr>"]
  by (simp add: auto_rerender_def split_beta)

lemma auto_mount_inv:
  "auto_inv (fst (auto_mount p prm t0)) \<and> aprops (fst (auto_mount p prm t0)) = p"
  using auto_sync_inv [of "\<lparr>aprops = p, params = prm, inner = setTerm (fst (useSearchBarState (value_prop (inputProps p)) (ctx_term (fst (input_mount (input_props_of p prm t0) t0))))) (fst (input_mount (input_props_of p prm t0) t0))\<rparr>"]
  by (simp add: auto_mount_def split_beta)

lemma auto_step_inv: "auto_inv s \<Longrightarrow> auto_inv (fst (auto_step e s))"
  by (cases e)
    (simp_all add: auto_act_inv auto_rerender_inv auto_ctx_write_def auto_params_def auto_sync_inv)

lemma auto_run_Cons: "fst (auto_run (e # es) s) = fst (auto_run es (fst (auto_step e s)))"
  by (simp add: split_beta)

lemma auto_run_inv: "auto_inv s \<Longrightarrow> auto_inv (fst (auto_run es s))"
proof (induction es arbitrary: s)
  case Nil
  then show ?case by simp
next
  case (Cons e es)
  from Cons.IH [OF auto_step_inv [OF Cons.prems, of e]] show ?case
    by (simp only: auto_run_Cons)
qed

lemma auto_after_inv: "auto_inv (auto_after es p prm t0)"
  unfolding auto_after_def by (rule auto_run_inv) (simp add: auto_mount_inv)

subsection \<open>The effect of useSearchBarState\<close>

lemma effect_falsy: "\<not> truthy dv \<Longrightarrow> useSearchBarState dv t = (t, [])"
  by (simp add: useSearchBarState_def)

lemma effect_truthy: "truthy dv \<Longrightarrow> useSearchBarState dv t = (dv, [SetTerm dv])"
  by (cases dv) (simp_all add: useSearchBarState_def truthy_def js_String_def)

lemma truthy_default: "truthy (input_default p) = truthy (value_prop p)"
  by (cases "value_prop p") (simp_all add: input_default_def truthy_def)

lemma truthy_default_eq: "truthy (value_prop p) \<Longrightarrow> input_default p = value_prop p"
  by (cases "value_prop p") (simp_all add: input_default_def truthy_def)


lemma input_mount_term:
  "ctx_term (fst (input_mount p t0)) = fst (useSearchBarState (input_default p) t0)"
  by (simp add: input_mount_def split_beta input_sync_simps)

lemma input_mount_calls:
  "snd (input_mount p t0) = snd (useSearchBarState (input_default p) t0)"
  by (simp add: input_mount_def split_beta)

lemma input_rerender_term:
  "ctx_term (fst (input_rerender p s)) =
     (if input_default p \<noteq> input_default (iprops s)
      then fst (useSearchBarState (input_default p) (ctx_term s)) else ctx_term s)"
  by (simp add: input_rerender_fst input_sync_simps setTerm_def)

lemma input_rerender_calls:
  "snd (input_rerender p s) =
     (if input_default p \<noteq> input_default (iprops s)
      then snd (useSearchBarState (input_default p) (ctx_term s)) else [])"
  by (simp add: input_rerender_def split_beta)

lemma auto_mount_term:
  "\<not> truthy (value_prop (inputProps ap)) \<Longrightarrow>
     ctx_term (inner (fst (auto_mount ap prm t0))) = t0"
  by (simp add: auto_mount_def split_beta auto_sync_term effect_falsy setTerm_def
      input_mount_term effect_of_own_term)

lemma auto_rerender_term:
  "\<not> truthy (value_prop (inputProps ap)) \<Longrightarrow>
     ctx_term (inner (fst (auto_rerender ap sa))) = ctx_term (inner sa)"
  by (simp add: auto_rerender_def split_beta auto_sync_term effect_falsy setTerm_def)

subsection \<open>The external value\<close>







subsection \<open>The caller's callback and the context\<close>

lemma act_no_SetTerm: "SetTerm v \<notin> set (snd (act a s))"
  by (cases a)
    (auto simp: handleKeyDown_def handleClear_def advance_def elapse_def split: option.splits)

lemma input_deliver_callback: "onChange (iprops s) \<Longrightarrow> input_deliver cs s = (s, cs)"
  by (induction cs s rule: input_deliver.induct) (simp_all add: input_handleChange_def)

lemma auto_deliver_callback:
  "onChange (inputProps (aprops s)) \<Longrightarrow> auto_deliver cs s = (s, cs)"
  by (induction cs s rule: auto_deliver.induct) (simp_all add: handleInputChange_def)

lemma input_act_callback:
  "onChange (iprops s) \<Longrightarrow>
     input_act a s = (s\<lparr>base := fst (act a (base s))\<rparr>, snd (act a (base s)))"
  by (simp add: input_act_def split_beta input_deliver_callback)

lemma auto_act_callback:
  "auto_inv s \<Longrightarrow> onChange (inputProps (aprops s)) \<Longrightarrow>
     auto_act a s = (s\<lparr>inner := (inner s)\<lparr>base := fst (act a (base (inner s)))\<rparr>\<rparr>,
                     snd (act a (base (inner s))))"
  by (simp add: auto_act_def auto_inv_def input_act_callback auto_deliver_callback)

text \<open>
  C5, as it is stated, fails: a \<open>SearchBarInput\<close> that is given a callback and the value
  "foo" writes "foo" into the context when it is mounted.
\<close>

theorem default_value_written_despite_callback:
  "onChange (bare_input\<lparr>value_prop := Some ''foo'', onChange := True\<rparr>)
   \<and> input_mount (bare_input\<lparr>value_prop := Some ''foo'', onChange := True\<rparr>) (Some [])
      = (\<lparr>iprops = bare_input\<lparr>value_prop := Some ''foo'', onChange := True\<rparr>,
          ctx_term = Some ''foo'',
          base = \<lparr>props = bare\<lparr>value_prop := Some ''foo''\<rparr>, local_value = Some ''foo'',
                  timer = Some 200\<rparr>\<rparr>,
         [SetTerm (Some ''foo'')])"
  by (simp add: bare_input_def bare_def input_mount_def useSearchBarState_def input_default_def
      truthy_def js_String_def input_sync_def rerender_def adopt_def base_props_of_def mount_def
      reset_def delay_def Let_def)

text \<open>
  C5, amended. When the caller supplies \<open>onChange\<close>, an action on the rendered input (an
  edit, a key, a click on the clear button, the passing of time) makes exactly the calls the
  inner \<open>SearchBarBase\<close> makes, so every value it commits goes to the caller's callback, and
  it neither changes the term of the context nor calls its setter. When the caller supplies
  none, the change handler stores the committed value into the context. This holds for
  \<open>SearchBarInput\<close> in every state and for \<open>SearchBarAutocomplete\<close> after its mount and any
  sequence of events. (With a callback, the component still writes the context where
  \<open>useSearchBarState\<close> does: a truthy default value.)
\<close>

theorem caller_callback_takes_precedence:
  "(onChange (iprops s) \<longrightarrow>
      input_act a s = (s\<lparr>base := fst (act a (base s))\<rparr>, snd (act a (base s)))
      \<and> (\<forall>w. SetTerm w \<notin> set (snd (input_act a s))))
   \<and> (\<not> onChange (iprops s) \<longrightarrow>
      ctx_term (fst (input_handleChange v s)) = v \<and> snd (input_handleChange v s) = [SetTerm v])
   \<and> (onChange (inputProps (aprops (auto_after aes ap prm t0))) \<longrightarrow>
      auto_act a (auto_after aes ap prm t0) =
        ((auto_after aes ap prm t0)
           \<lparr>inner := (inner (auto_after aes ap prm t0))
              \<lparr>base := fst (act a (base (inner (auto_after aes ap prm t0))))\<rparr>\<rparr>,
         snd (act a (base (inner (auto_after aes ap prm t0)))))
      \<and> (\<forall>w. SetTerm w \<notin> set (snd (auto_act a (auto_after aes ap prm t0)))))
   \<and> (\<not> onChange (inputProps (aprops sa)) \<longrightarrow>
      ctx_term (inner (fst (handleInputChange v sa))) = v
      \<and> SetTerm v \<in> set (snd (handleInputChange v sa)))"
  using auto_act_callback [OF auto_after_inv, of aes ap prm t0 a]
  by (simp add: input_act_callback act_no_SetTerm input_handleChange_def input_sync_simps
      setTerm_def handleInputChange_def split_beta auto_sync_term)

theorem caller_callback_takes_precedence_witness:
  "input_act (Advance 200)
      (input_after [IAct (Edit ''abc'')] (bare_input\<lparr>onChange := True\<rparr>) (Some ''old''))
     = (\<lparr>iprops = bare_input\<lparr>onChange := True\<rparr>, ctx_term = Some ''old'',
         base = \<lparr>props = bare\<lparr>value_prop := Some ''old''\<rparr>, local_value = Some ''abc'',
                 timer = None\<rparr>\<rparr>,
        [OnChange (Some ''abc'')])
   \<and> input_handleChange (Some ''abc'') (input_after [IAct (Edit ''abc'')] bare_input (Some ''old''))
     = (\<lparr>iprops = bare_input, ctx_term = Some ''abc'',
         base = \<lparr>props = bare\<lparr>value_prop := Some ''abc''\<rparr>, local_value = Some ''abc'',
                 timer = Some 200\<rparr>\<rparr>,
        [SetTerm (Some ''abc'')])
   \<and> snd (auto_act (Advance 200)
        (auto_after [AAct (Edit ''abc'')] (bare_auto\<lparr>inputProps := bare_input\<lparr>onChange := True\<rparr>\<rparr>)
           (Some (Some [])) (Some ''old''))) = [OnChange (Some ''abc'')]
   \<and> ctx_term (inner (fst (handleInputChange (Some ''abc'')
        (auto_after [AAct (Edit ''abc'')] bare_auto (Some (Some [])) (Some ''old''))))) = Some ''abc''"
  using caller_callback_takes_precedence [where a = "Advance 200"
      and s = "input_after [IAct (Edit ''abc'')] (bare_input\<lparr>onChange := True\<rparr>) (Some ''old'')"
      and aes = "[AAct (Edit ''abc'')]"
      and ap = "bare_auto\<lparr>inputProps := bare_input\<lparr>onChange := True\<rparr>\<rparr>"
      and prm = "Some (Some [])"
      and ?t0.0 = "Some ''old''"]
    caller_callback_takes_precedence [where v = "Some ''abc''"
      and s = "input_after [IAct (Edit ''abc'')] bare_input (Some ''old'')"
      and sa = "auto_after [AAct (Edit ''abc'')] bare_auto (Some (Some [])) (Some ''old'')"]
  by (simp add: bare_def bare_input_def bare_auto_def mount_def handleChange_def
      input_after_def auto_after_def advance_def elapse_def input_handleChange_def
      input_mount_def useSearchBarState_def input_default_def truthy_def js_String_def
      input_sync_def rerender_def adopt_def base_props_of_def input_act_def
      auto_mount_def auto_sync_def input_rerender_def input_props_of_def setTerm_def
      auto_act_def reset_def delay_def Let_def handleInputChange_def)

subsection \<open>The default value\<close>

text \<open>
  C10. A \<open>SearchBarInput\<close> mounted with a default value that is absent or the empty string
  leaves the term of the context as it is and does not call the setter; so does a later
  render with such a value. Mounted with a truthy default value, it stores that value. A
  \<open>SearchBarAutocomplete\<close> mounted or rendered again with an absent or empty
  \<open>inputProps.value\<close> leaves the term as it is.
\<close>

theorem falsy_default_not_written:
  "(\<not> truthy (value_prop ip) \<longrightarrow>
      ctx_term (fst (input_mount ip t0)) = t0 \<and> snd (input_mount ip t0) = [])
   \<and> (\<not> truthy (value_prop ip) \<longrightarrow>
      ctx_term (fst (input_rerender ip s)) = ctx_term s \<and> snd (input_rerender ip s) = [])
   \<and> (truthy (value_prop ip) \<longrightarrow>
      ctx_term (fst (input_mount ip t0)) = value_prop ip
      \<and> snd (input_mount ip t0) = [SetTerm (value_prop ip)])
   \<and> (\<not> truthy (value_prop (inputProps ap)) \<longrightarrow>
      ctx_term (inner (fst (auto_mount ap prm t0))) = t0)
   \<and> (\<not> truthy (value_prop (inputProps ap)) \<longrightarrow>
      ctx_term (inner (fst (auto_rerender ap sa))) = ctx_term (inner sa))"
  by (simp add: input_mount_term input_rerender_term auto_mount_term auto_rerender_term
      input_mount_calls input_rerender_calls truthy_default effect_falsy effect_truthy
      truthy_default_eq)

theorem falsy_default_not_written_witness:
  "ctx_term (fst (input_mount bare_input (Some ''kept''))) = Some ''kept''
   \<and> ctx_term (fst (input_rerender (bare_input\<lparr>value_prop := Some []\<rparr>)
        (fst (input_mount (bare_input\<lparr>value_prop := Some ''foo''\<rparr>) (Some ''kept'')))))
      = Some ''foo''
   \<and> snd (input_mount (bare_input\<lparr>value_prop := Some ''foo''\<rparr>) (Some ''kept''))
      = [SetTerm (Some ''foo'')]
   \<and> ctx_term (inner (fst (auto_mount bare_auto (Some (Some [])) (Some ''kept'')))) = Some ''kept''
   \<and> ctx_term (inner (fst (auto_rerender
        (bare_auto\<lparr>inputProps := bare_input\<lparr>value_prop := Some []\<rparr>\<rparr>)
        (fst (auto_mount bare_auto (Some (Some [])) (Some ''kept'')))))) = Some ''kept''"
  using falsy_default_not_written [where ip = bare_input and ?t0.0 = "Some ''kept''"
      and ap = bare_auto and prm = "Some (Some [])"]
    falsy_default_not_written [where ip = "bare_input\<lparr>value_prop := Some []\<rparr>"
      and s = "fst (input_mount (bare_input\<lparr>value_prop := Some ''foo''\<rparr>) (Some ''kept''))"
      and ap = "bare_auto\<lparr>inputProps := bare_input\<lparr>value_prop := Some []\<rparr>\<rparr>"
      and sa = "fst (auto_mount bare_auto (Some (Some [])) (Some ''kept''))"]
    falsy_default_not_written [where ip = "bare_input\<lparr>value_prop := Some ''foo''\<rparr>"
      and ?t0.0 = "Some ''kept''"]
  by (simp add: bare_input_def bare_auto_def truthy_def)

subsection \<open>Clear\<close>

text \<open>
  C3. The claim is that a click on the clear button empties the local value and the
  propagated value at once. The code does not: with the \<open>value\<close> prop \<open>''\<close>, the text "abc"
  typed and the button clicked, the local value is still "abc", and 200 ms later "abc" is
  reported, after the \<open>''\<close> of the click. In a \<open>SearchBarInput\<close> without a callback whose
  context term is \<open>''\<close>, the same steps leave "abc" in the input and end with "abc" as the
  term of the context. When the term is "ab" instead, the click does empty both.
\<close>

theorem clear_keeps_local_value:
  "local_value (fst (acts [Edit ''abc'', Clear] (mount (bare\<lparr>value_prop := Some []\<rparr>))))
     = Some ''abc''
   \<and> snd (acts [Edit ''abc'', Clear, Advance 200] (mount (bare\<lparr>value_prop := Some []\<rparr>)))
     = [OnChange (Some []), OnChange (Some ''abc'')]
   \<and> local_value (base (input_after [IAct (Edit ''abc''), IAct Clear] bare_input (Some [])))
     = Some ''abc''
   \<and> ctx_term (input_after [IAct (Edit ''abc''), IAct Clear, IAct (Advance 200)] bare_input (Some []))
     = Some ''abc''
   \<and> snd (input_run [IAct (Edit ''abc''), IAct Clear, IAct (Advance 200)]
        (fst (input_mount bare_input (Some []))))
     = [SetTerm (Some []), SetTerm (Some ''abc'')]
   \<and> local_value (base (input_after [IAct (Edit ''abc''), IAct Clear] bare_input (Some ''ab'')))
     = Some []
   \<and> ctx_term (input_after [IAct (Edit ''abc''), IAct Clear, IAct (Advance 200)] bare_input (Some ''ab''))
     = Some []"
  by (simp add: mount_def bare_def bare_input_def clear_shown_def handleClear_def
      handleChange_def advance_def elapse_def reset_def delay_def input_after_def
      input_mount_def useSearchBarState_def input_default_def truthy_def js_String_def
      input_sync_def rerender_def adopt_def base_props_of_def input_act_def setTerm_def
      input_handleChange_def Let_def)

subsection \<open>Absent values\<close>

text \<open>
  C8. The claim is that an absent external value defaults to the empty string, so that the
  local value of \<open>SearchBarBase\<close> is a string. The code does not: a \<open>SearchBarBase\<close> mounted
  without a \<open>value\<close> prop has the local value \<open>undefined\<close> and calls \<open>onChange(undefined)\<close>
  200 ms later, where line 70 gives \<open>onChange\<close> a string and line 93 declares the state a
  string. \<open>SearchBarInput\<close> does default its absent \<open>value\<close> to the empty string (line 190).
\<close>

theorem base_local_value_undefined:
  "local_value (mount bare) = None
   \<and> snd (acts [Advance 200] (mount bare)) = [OnChange None]
   \<and> input_default bare_input = Some []"
  by (simp add: mount_def bare_def bare_input_def advance_def elapse_def reset_def delay_def
      input_default_def)

end
